theory Spec2Isabelle
  imports Main "HOL-Library.Word"
begin

section \<open>DarkPool: the staking ledger and its reward token\<close>

text \<open>
  A shallow embedding of \<^verbatim>\<open>contracts/DarkPoolStaking.sol\<close> and of the
  \<^verbatim>\<open>RewardCoin\<close> contract it mints into. Solidity's value types are words of
  their width, a \<^verbatim>\<open>mapping\<close> is a total function whose unset keys read as the
  zero value, and \<^verbatim>\<open>delete\<close> writes the zero value back.

  The FHE library, the ERC7984 base token and the recipient of a native-value
  transfer are not part of the repository. What the FHE library answers during one
  call is a field of the call's environment: the handle \<^verbatim>\<open>FHE.asEuint64\<close>
  returns, and whether \<^verbatim>\<open>FHE.checkSignatures\<close> returns or reverts. What the
  recipient of a payment does while it holds control is a \<open>callback\<close>: the calls it
  makes, or has others make, into the two contracts, each with its own environment
  and its own recipient, and whether it accepts the payment in the end. Native
  balances are not tracked: a payment the ledger cannot cover is one that is not
  accepted. A transaction's sender is whatever the environment says, the zero
  address included. What the ledger asks of the outside world is recorded in two
  logs: the native-value payments made and the \<^verbatim>\<open>_mint\<close> calls made on the
  ERC7984 base. The access-control calls of the FHE library (\<^verbatim>\<open>allowThis\<close>,
  \<^verbatim>\<open>allow\<close>, \<^verbatim>\<open>makePubliclyDecryptable\<close>) and the events write nothing into
  the storage of either contract and are left out.
\<close>

subsection \<open>Types\<close>

type_synonym address = "160 word"
type_synonym uint64 = "64 word"
type_synonym uint256 = "256 word"
type_synonym euint64 = "256 word"  \<comment> \<open>a \<^verbatim>\<open>bytes32\<close> handle\<close>
type_synonym bytes = "8 word list"

record StakePosition =
  amount :: euint64
  unlockTimestamp :: uint64
  active :: bool
  withdrawRequested :: bool

datatype error =
    InvalidAmount
  | InvalidDuration
  | InvalidAddress
  | ActiveStakeExists
  | NoActiveStake
  | WithdrawNotReady
  | WithdrawAlreadyRequested
  | InvalidWithdrawRequest
  | RewardOverflow
  | TransferFailed
  | Unauthorized  \<comment> \<open>\<^verbatim>\<open>RewardCoin.Unauthorized\<close>\<close>
  | InvalidProof  \<comment> \<open>\<^verbatim>\<open>FHE.checkSignatures\<close> reverted\<close>
  | Panic  \<comment> \<open>checked arithmetic overflowed\<close>

record RewardCoin =
  owner :: address
  minter :: address
  minted :: "(address \<times> euint64) list"  \<comment> \<open>the \<^verbatim>\<open>_mint(to, handle)\<close> calls made so far\<close>

record world =
  stakes :: "address \<Rightarrow> StakePosition"  \<comment> \<open>\<^verbatim>\<open>_stakes\<close>\<close>
  withdrawRequests :: "euint64 \<Rightarrow> address"  \<comment> \<open>\<^verbatim>\<open>_withdrawRequests\<close>\<close>
  rewardCoin :: RewardCoin
  this :: address  \<comment> \<open>the staking contract's own address\<close>
  paid :: "(address \<times> uint64) list"  \<comment> \<open>native-value transfers made so far\<close>

record env =
  msg_sender :: address
  msg_value :: uint256
  block_timestamp :: uint256
  asEuint64 :: "uint64 \<Rightarrow> euint64"
  checkSignatures :: "euint64 list \<Rightarrow> bytes \<Rightarrow> bytes \<Rightarrow> bool"

subsection \<open>Constants and checked arithmetic\<close>

definition REWARD_PER_ETH :: uint256 where
  "REWARD_PER_ETH = 1000 * 1000000"

definition max_uint64 :: uint256 where
  "max_uint64 = 18446744073709551615"

definition no_position :: StakePosition where
  "no_position = \<lparr>amount = 0, unlockTimestamp = 0, active = False, withdrawRequested = False\<rparr>"

text \<open>Solidity 0.8 reverts with a panic when \<^verbatim>\<open>+\<close> or \<^verbatim>\<open>*\<close> overflows.\<close>

definition checked_add64 :: "uint64 \<Rightarrow> uint64 \<Rightarrow> uint64 option" where
  "checked_add64 a b = (if unat a + unat b < 2 ^ 64 then Some (a + b) else None)"

definition checked_mul256 :: "uint256 \<Rightarrow> uint256 \<Rightarrow> uint256 option" where
  "checked_mul256 a b = (if unat a * unat b < 2 ^ 256 then Some (a * b) else None)"

text \<open>\<^verbatim>\<open>abi.encode(clearAmount)\<close>: the value as 32 big-endian bytes.\<close>

definition abi_encode :: "uint64 \<Rightarrow> bytes" where
  "abi_encode v = map (\<lambda>i. ucast (drop_bit (8 * (31 - i)) (ucast v :: uint256))) [0..<32]"

text \<open>
  Line 115 of the ledger:
  \<^verbatim>\<open>(uint256(clearAmount) * REWARD_PER_ETH) / 1e18\<close>; \<open>None\<close> is the panic of
  the multiplication.
\<close>

definition rewardAmount :: "uint64 \<Rightarrow> uint256 option" where
  "rewardAmount clearAmount =
     (case checked_mul256 (ucast clearAmount) REWARD_PER_ETH of
        None \<Rightarrow> None
      | Some p \<Rightarrow> Some (p div 1000000000000000000))"

subsection \<open>RewardCoin\<close>

text \<open>
  Each function takes the caller and the token's state and returns the error, if the
  call reverts, with the storage as it stands at that point.
\<close>

definition setMinter :: "address \<Rightarrow> address \<Rightarrow> RewardCoin \<Rightarrow> error option \<times> RewardCoin" where
  "setMinter caller newMinter c =
     (if caller \<noteq> owner c then (Some Unauthorized, c)
      else if newMinter = 0 then (Some InvalidAddress, c)
      else (None, c\<lparr>minter := newMinter\<rparr>))"

definition transferOwnership :: "address \<Rightarrow> address \<Rightarrow> RewardCoin \<Rightarrow> error option \<times> RewardCoin" where
  "transferOwnership caller newOwner c =
     (if caller \<noteq> owner c then (Some Unauthorized, c)
      else if newOwner = 0 then (Some InvalidAddress, c)
      else (None, c\<lparr>owner := newOwner\<rparr>))"

definition mint :: "env \<Rightarrow> address \<Rightarrow> address \<Rightarrow> uint64 \<Rightarrow> RewardCoin \<Rightarrow> error option \<times> RewardCoin" where
  "mint e caller to amt c =
     (if caller \<noteq> minter c then (Some Unauthorized, c)
      else if to = 0 then (Some InvalidAddress, c)
      else let encryptedAmount = asEuint64 e amt
           in (None, c\<lparr>minted := minted c @ [(to, encryptedAmount)]\<rparr>))"

subsection \<open>DarkPoolStaking\<close>

definition stake :: "env \<Rightarrow> uint64 \<Rightarrow> world \<Rightarrow> error option \<times> world" where
  "stake e lockDurationSeconds w =
     (if msg_value e = 0 \<or> msg_value e > max_uint64 then (Some InvalidAmount, w)
      else if lockDurationSeconds = 0 then (Some InvalidDuration, w)
      else if active (stakes w (msg_sender e)) then (Some ActiveStakeExists, w)
      else case checked_add64 (ucast (block_timestamp e)) lockDurationSeconds of
        None \<Rightarrow> (Some Panic, w)
      | Some unlock \<Rightarrow>
          let encryptedAmount = asEuint64 e (ucast (msg_value e))
          in (None, w\<lparr>stakes := (stakes w)(msg_sender e :=
                \<lparr>amount = encryptedAmount, unlockTimestamp = unlock,
                 active = True, withdrawRequested = False\<rparr>)\<rparr>))"

definition requestWithdraw :: "env \<Rightarrow> world \<Rightarrow> error option \<times> world" where
  "requestWithdraw e w =
     (let position = stakes w (msg_sender e) in
      if \<not> active position then (Some NoActiveStake, w)
      else if withdrawRequested position then (Some WithdrawAlreadyRequested, w)
      else if block_timestamp e < ucast (unlockTimestamp position) then (Some WithdrawNotReady, w)
      else
        let w1 = w\<lparr>stakes := (stakes w)(msg_sender e := position\<lparr>withdrawRequested := True\<rparr>)\<rparr>
        in if withdrawRequests w1 (amount position) \<noteq> 0 then (Some InvalidWithdrawRequest, w1)
           else (None, w1\<lparr>withdrawRequests :=
                   (withdrawRequests w1)(amount position := msg_sender e)\<rparr>))"

text \<open>A call into the token: its outcome, and its storage written back.\<close>

fun onCoin :: "(error option \<times> RewardCoin) \<Rightarrow> world \<Rightarrow> error option \<times> world" where
  "onCoin (r, c) w = (r, w\<lparr>rewardCoin := c\<rparr>)"

definition getStake :: "world \<Rightarrow> address \<Rightarrow> euint64 \<times> uint64 \<times> bool \<times> bool" where
  "getStake w staker =
     (let position = stakes w staker
      in (amount position, unlockTimestamp position, active position, withdrawRequested position))"

definition receive :: "env \<Rightarrow> world \<Rightarrow> error option \<times> world" where
  "receive e w = (Some InvalidAmount, w)"

subsection \<open>Transactions\<close>

text \<open>One external call of either contract.\<close>

datatype call =
    Stake uint64
  | RequestWithdraw
  | FinalizeWithdraw euint64 uint64 bytes
  | Receive
  | SetMinter address
  | TransferOwnership address
  | Mint address uint64

text \<open>
  What a recipient does with the control that a payment hands to it: the calls made
  before it returns, in order, and whether it returns success.
\<close>

datatype callback = Callback (accepts: bool) (reenters: "(env \<times> call \<times> callback) list")

text \<open>
  \<open>finalizeWithdraw\<close> is lines 95 to 131. At line 123 the payment is made and the
  staker's code runs on the storage as it stands there, both entries already deleted;
  a staker that does not accept undoes what it did, and the ledger reverts. \<open>body\<close>
  is the function a call selects. \<open>transact\<close> is the call as the EVM runs it: a
  call that reverts leaves every storage write of the call undone. \<open>reenter\<close> runs
  a recipient's calls one after the other, each a call of its own, whose failure the
  recipient may survive.
\<close>

fun finalizeWithdraw ::
    "env \<Rightarrow> euint64 \<Rightarrow> uint64 \<Rightarrow> bytes \<Rightarrow> callback \<Rightarrow> world \<Rightarrow> error option \<times> world"
  and body :: "env \<Rightarrow> call \<Rightarrow> callback \<Rightarrow> world \<Rightarrow> error option \<times> world"
  and transact :: "env \<Rightarrow> call \<Rightarrow> callback \<Rightarrow> world \<Rightarrow> error option \<times> world"
  and reenter :: "(env \<times> call \<times> callback) list \<Rightarrow> world \<Rightarrow> world"
where
  "finalizeWithdraw e amt clearAmount decryptionProof (Callback accepted calls) w =
     (let staker = withdrawRequests w amt in
      if staker = 0 then (Some InvalidWithdrawRequest, w)
      else
        let position = stakes w staker in
        if \<not> active position \<or> \<not> withdrawRequested position then (Some InvalidWithdrawRequest, w)
        else if \<not> checkSignatures e [amt] (abi_encode clearAmount) decryptionProof
          then (Some InvalidProof, w)
        else case rewardAmount clearAmount of
          None \<Rightarrow> (Some Panic, w)
        | Some reward \<Rightarrow>
            if reward > max_uint64 then (Some RewardOverflow, w)
            else
              let w1 = w\<lparr>withdrawRequests := (withdrawRequests w)(amt := 0)\<rparr>;
                  w2 = w1\<lparr>stakes := (stakes w1)(staker := no_position)\<rparr>
              in if \<not> accepted then (Some TransferFailed, w2)
                 else
                   let w3 = reenter calls (w2\<lparr>paid := paid w2 @ [(staker, clearAmount)]\<rparr>)
                   in onCoin (mint e (this w3) staker (ucast reward) (rewardCoin w3)) w3)"
| "body e (Stake d) cb w = stake e d w"
| "body e RequestWithdraw cb w = requestWithdraw e w"
| "body e (FinalizeWithdraw h v p) cb w = finalizeWithdraw e h v p cb w"
| "body e Receive cb w = receive e w"
| "body e (SetMinter a) cb w = onCoin (setMinter (msg_sender e) a (rewardCoin w)) w"
| "body e (TransferOwnership a) cb w = onCoin (transferOwnership (msg_sender e) a (rewardCoin w)) w"
| "body e (Mint a v) cb w = onCoin (mint e (msg_sender e) a v (rewardCoin w)) w"
| "transact e c cb w =
     (case body e c cb w of
        (None, w') \<Rightarrow> (None, w')
      | (Some err, _) \<Rightarrow> (Some err, w))"
| "reenter [] w = w"
| "reenter ((e, c, cb) # calls) w = reenter calls (snd (transact e c cb w))"

declare finalizeWithdraw.simps [simp del]
declare transact.simps [simp del]

text \<open>
  The storage at the moment line 123 hands control to the staker: both entries
  deleted, the payment made.
\<close>

definition handed_over :: "world \<Rightarrow> euint64 \<Rightarrow> uint64 \<Rightarrow> world" where
  "handed_over w h v =
     w\<lparr>withdrawRequests := (withdrawRequests w)(h := 0),
       stakes := (stakes w)(withdrawRequests w h := no_position),
       paid := paid w @ [(withdrawRequests w h, v)]\<rparr>"

text \<open>
  The state after deployment: both mappings unset, nothing paid yet. The states the
  ledger can be in are those a sequence of transactions leads to from there.
\<close>

definition deployed :: "address \<Rightarrow> RewardCoin \<Rightarrow> world" where
  "deployed self c =
     \<lparr>stakes = (\<lambda>_. no_position), withdrawRequests = (\<lambda>_. 0), rewardCoin = c,
      this = self, paid = []\<rparr>"

inductive reachable :: "world \<Rightarrow> bool" where
  reachable_deployed: "reachable (deployed self c)"
| reachable_transact: "reachable w \<Longrightarrow> reachable (snd (transact e c cb w))"

subsection \<open>The two invariants of the data model\<close>

definition requested_implies_active :: "world \<Rightarrow> bool" where
  "requested_implies_active w = (\<forall>a. withdrawRequested (stakes w a) \<longrightarrow> active (stakes w a))"

text \<open>
  The zero address is how the index says that a handle has no entry, so the accounts
  that can own an entry are the non-zero ones.
\<close>

definition pending_index_exact :: "world \<Rightarrow> bool" where
  "pending_index_exact w =
     (\<forall>h a. a \<noteq> 0 \<longrightarrow>
        (withdrawRequests w h = a \<longleftrightarrow>
           active (stakes w a) \<and> withdrawRequested (stakes w a) \<and> amount (stakes w a) = h))"

subsection \<open>A concrete run\<close>

text \<open>
  An environment whose encryption service wraps the clear value and whose proofs all
  verify. A recipient that accepts a payment and does nothing else, one that refuses
  it, and account 1 as a contract that, on being paid, stakes 5 wei again for 10
  seconds before it accepts.
\<close>

definition mock_env :: "address \<Rightarrow> uint256 \<Rightarrow> uint256 \<Rightarrow> env" where
  "mock_env sender val now =
     \<lparr>msg_sender = sender, msg_value = val, block_timestamp = now, asEuint64 = ucast,
      checkSignatures = (\<lambda>handles cleartexts decryptionProof. True)\<rparr>"

definition accepting :: callback where
  "accepting = Callback True []"

definition refusing :: callback where
  "refusing = Callback False []"

definition restaking :: callback where
  "restaking = Callback True [(mock_env 1 5 2001, Stake 10, accepting)]"

text \<open>
  The ledger lives at address 100 and the token's owner is account 9, who makes the
  ledger the minter, as the deployment script does. Accounts 1 and 2 then stake 5 wei
  each at time 1000, locked for 10 seconds, and receive the same handle. At time 2000
  account 1 requests its withdrawal. In the last state the owner has moved the minter
  role away from the ledger.
\<close>

definition world_deployed :: world where
  "world_deployed =
     snd (transact (mock_env 9 0 900) (SetMinter 100) accepting
       (deployed 100 \<lparr>owner = 9, minter = 0, minted = []\<rparr>))"

definition world_two_staked :: world where
  "world_two_staked =
     snd (transact (mock_env 2 5 1000) (Stake 10) accepting
       (snd (transact (mock_env 1 5 1000) (Stake 10) accepting world_deployed)))"

definition world_one_pending :: world where
  "world_one_pending =
     snd (transact (mock_env 1 0 2000) RequestWithdraw accepting world_two_staked)"

definition world_minter_moved :: world where
  "world_minter_moved =
     snd (transact (mock_env 9 0 2000) (SetMinter 200) accepting world_one_pending)"

section \<open>The reward computation\<close>

lemma unat_REWARD_PER_ETH: "unat REWARD_PER_ETH = 1000000000"
  by (simp add: REWARD_PER_ETH_def)

lemma unat_lt_2p64: "unat (c :: uint64) < 18446744073709551616"
  using unsigned_less [of c, where ?'a = nat] by simp

lemma unat_ucast_64_256: "unat (ucast (c :: uint64) :: uint256) = unat c"
proof -
  have "unat c < 2 ^ 256" using unat_lt_2p64 [of c] by simp
  then show ?thesis
    by (simp add: unsigned_ucast_eq take_bit_nat_eq_self)
qed

lemma unat_ucast_256_64:
  "unat (x :: uint256) < 2 ^ 64 \<Longrightarrow> unat (ucast x :: uint64) = unat x"
  by (simp add: unsigned_ucast_eq take_bit_nat_eq_self)

text \<open>The multiplication never panics, and the quotient is the one over the naturals.\<close>

lemma rewardAmount_unat:
  "\<exists>r. rewardAmount c = Some r \<and> unat r = unat c * 1000000000 div 1000000000000000000"
proof -
  let ?a = "ucast c :: uint256"
  have small: "unat ?a * unat REWARD_PER_ETH < 2 ^ 256"
    using unat_lt_2p64 [of c] by (simp add: unat_REWARD_PER_ETH unat_ucast_64_256)
  then have prod: "unat (?a * REWARD_PER_ETH) = unat ?a * unat REWARD_PER_ETH"
    by (simp add: unat_mult_lem [THEN iffD1])
  have "rewardAmount c = Some ((?a * REWARD_PER_ETH) div 1000000000000000000)"
    using small by (simp add: rewardAmount_def checked_mul256_def)
  moreover have "unat ((?a * REWARD_PER_ETH) div 1000000000000000000)
      = unat c * 1000000000 div 1000000000000000000"
    by (simp add: unat_div prod unat_REWARD_PER_ETH unat_ucast_64_256)
  ultimately show ?thesis by blast
qed

lemma rewardAmount_le_max:
  assumes "rewardAmount c = Some r"
  shows "r \<le> max_uint64"
proof -
  from rewardAmount_unat [of c] assms
  have "unat r = unat c * 1000000000 div 1000000000000000000" by simp
  also have "\<dots> \<le> unat c" by simp
  finally have "unat r \<le> 18446744073709551615" using unat_lt_2p64 [of c] by simp
  then show ?thesis by (simp add: max_uint64_def word_le_nat_alt)
qed

lemma rewardAmount_5: "rewardAmount 5 = Some 0"
  by (simp add: rewardAmount_def checked_mul256_def REWARD_PER_ETH_def)

text \<open>
  Claim C6. The reward is a function of the clear amount alone: it is
  \<open>clearAmount * 1000e6\<close> divided by \<open>1e18\<close>, rounded down. It is 0 at 0, and
  a smaller deposit never earns more than a larger one.
\<close>

theorem reward_monotonic:
  "rewardAmount 0 = Some 0
   \<and> (\<exists>r. rewardAmount c = Some r \<and> unat r = unat c * (1000 * 10 ^ 6) div 10 ^ 18)
   \<and> (a < b \<longrightarrow> (\<exists>ra rb. rewardAmount a = Some ra \<and> rewardAmount b = Some rb \<and> ra \<le> rb))"
proof (intro conjI impI)
  show "rewardAmount 0 = Some 0"
    by (simp add: rewardAmount_def checked_mul256_def)
  show "\<exists>r. rewardAmount c = Some r \<and> unat r = unat c * (1000 * 10 ^ 6) div 10 ^ 18"
    using rewardAmount_unat [of c] by simp
  assume "a < b"
  then have ab: "unat a \<le> unat b" by (simp add: word_less_nat_alt)
  obtain ra where ra: "rewardAmount a = Some ra"
    "unat ra = unat a * 1000000000 div 1000000000000000000"
    using rewardAmount_unat [of a] by blast
  obtain rb where rb: "rewardAmount b = Some rb"
    "unat rb = unat b * 1000000000 div 1000000000000000000"
    using rewardAmount_unat [of b] by blast
  have "unat ra \<le> unat rb"
    unfolding ra(2) rb(2) using ab by (intro div_le_mono mult_le_mono1)
  then have "ra \<le> rb" by (simp add: word_le_nat_alt)
  with ra(1) rb(1) show "\<exists>ra rb. rewardAmount a = Some ra \<and> rewardAmount b = Some rb \<and> ra \<le> rb"
    by blast
qed

text \<open>One wei earns nothing, five ether earn five reward units.\<close>

theorem reward_monotonic_witness:
  "(1 :: uint64) < 5000000000 \<and> rewardAmount 0 = Some 0
   \<and> (\<exists>ra rb. rewardAmount 1 = Some ra \<and> rewardAmount 5000000000 = Some rb \<and> ra \<le> rb)"
proof -
  have h: "(1 :: uint64) < 5000000000" by simp
  from reward_monotonic [of 0 1 5000000000] h show ?thesis by blast
qed

section \<open>Transactions and reverts\<close>

lemma transact_cases:
  obtains (reverted) err where "transact e c cb w = (Some err, w)"
  | (committed) w' where "body e c cb w = (None, w')" "transact e c cb w = (None, w')"
proof (cases "body e c cb w")
  case (Pair r w')
  show thesis
  proof (cases r)
    case None
    with Pair show thesis by (intro committed [of w']) (simp_all add: transact.simps)
  next
    case (Some err)
    with Pair show thesis by (intro reverted [of err]) (simp add: transact.simps)
  qed
qed

lemma transact_error: "fst (body e c cb w) = Some err \<Longrightarrow> transact e c cb w = (Some err, w)"
  by (cases "body e c cb w") (simp add: transact.simps)

lemma fst_transact: "fst (transact e c cb w) = fst (body e c cb w)"
  by (cases "body e c cb w") (simp add: transact.simps split: option.splits)

lemma snd_transact_error: "fst (transact e c cb w) = Some err \<Longrightarrow> snd (transact e c cb w) = w"
  by (cases e c cb w rule: transact_cases) simp_all

section \<open>What each entry point does\<close>

lemma requestWithdraw_ok:
  assumes "requestWithdraw e w = (None, w')"
  shows "active (stakes w (msg_sender e))" "\<not> withdrawRequested (stakes w (msg_sender e))"
    "\<not> block_timestamp e < ucast (unlockTimestamp (stakes w (msg_sender e)))"
    "withdrawRequests w (amount (stakes w (msg_sender e))) = 0"
    "w' = w\<lparr>stakes := (stakes w)(msg_sender e := (stakes w (msg_sender e))\<lparr>withdrawRequested := True\<rparr>),
            withdrawRequests := (withdrawRequests w)(amount (stakes w (msg_sender e)) := msg_sender e)\<rparr>"
  using assms by (auto simp: requestWithdraw_def Let_def split: if_splits)

lemma requestWithdraw_collision:
  assumes "active (stakes w (msg_sender e))" and "\<not> withdrawRequested (stakes w (msg_sender e))"
    and "\<not> block_timestamp e < ucast (unlockTimestamp (stakes w (msg_sender e)))"
    and "withdrawRequests w (amount (stakes w (msg_sender e))) \<noteq> 0"
  shows "fst (requestWithdraw e w) = Some InvalidWithdrawRequest"
  using assms by (simp add: requestWithdraw_def Let_def)

text \<open>\<open>finalizeWithdraw\<close> for a pending handle whose proof verifies.\<close>

lemma finalizeWithdraw_pending:
  assumes "withdrawRequests w h = s" and "s \<noteq> 0" and "active (stakes w s)"
    and "withdrawRequested (stakes w s)" and "checkSignatures e [h] (abi_encode v) p"
    and "rewardAmount v = Some r"
  shows "finalizeWithdraw e h v p cb w =
     (if \<not> accepts cb
      then (Some TransferFailed,
            w\<lparr>withdrawRequests := (withdrawRequests w)(h := 0),
              stakes := (stakes w)(s := no_position)\<rparr>)
      else onCoin (mint e (this (reenter (reenters cb) (handed_over w h v))) s (ucast r)
                     (rewardCoin (reenter (reenters cb) (handed_over w h v))))
             (reenter (reenters cb) (handed_over w h v)))"
proof -
  have "\<not> r > max_uint64" using rewardAmount_le_max [OF assms(6)] by simp
  with assms show ?thesis
    by (cases cb) (simp add: finalizeWithdraw.simps Let_def handed_over_def)
qed

text \<open>Every other case fails before anything is written.\<close>

lemma finalizeWithdraw_early:
  assumes "withdrawRequests w h = 0 \<or> \<not> active (stakes w (withdrawRequests w h))
    \<or> \<not> withdrawRequested (stakes w (withdrawRequests w h))
    \<or> \<not> checkSignatures e [h] (abi_encode v) p"
  shows "\<exists>err. finalizeWithdraw e h v p cb w = (Some err, w)
     \<and> (err = InvalidWithdrawRequest \<or> err = InvalidProof)"
  using assms
  by (cases cb) (auto simp: finalizeWithdraw.simps Let_def)

lemma finalizeWithdraw_no_entry:
  "withdrawRequests w h = 0 \<Longrightarrow>
     finalizeWithdraw e h v p cb w = (Some InvalidWithdrawRequest, w)"
  by (cases cb) (simp add: finalizeWithdraw.simps)

lemma finalizeWithdraw_outcome:
  obtains (early) err where "finalizeWithdraw e h v p cb w = (Some err, w)"
      "err = InvalidWithdrawRequest \<or> err = InvalidProof"
  | (late) r where "withdrawRequests w h \<noteq> 0"
      "active (stakes w (withdrawRequests w h))"
      "withdrawRequested (stakes w (withdrawRequests w h))"
      "checkSignatures e [h] (abi_encode v) p"
      "rewardAmount v = Some r"
      "finalizeWithdraw e h v p cb w =
         (if \<not> accepts cb
          then (Some TransferFailed,
                w\<lparr>withdrawRequests := (withdrawRequests w)(h := 0),
                  stakes := (stakes w)(withdrawRequests w h := no_position)\<rparr>)
          else onCoin (mint e (this (reenter (reenters cb) (handed_over w h v)))
                         (withdrawRequests w h) (ucast r)
                         (rewardCoin (reenter (reenters cb) (handed_over w h v))))
                 (reenter (reenters cb) (handed_over w h v)))"
proof (cases "withdrawRequests w h \<noteq> 0 \<and> active (stakes w (withdrawRequests w h))
    \<and> withdrawRequested (stakes w (withdrawRequests w h))
    \<and> checkSignatures e [h] (abi_encode v) p")
  case True
  obtain r where r: "rewardAmount v = Some r" using rewardAmount_unat [of v] by blast
  from True r show thesis
    by (intro late [of r] finalizeWithdraw_pending) simp_all
next
  case False
  then obtain err where "finalizeWithdraw e h v p cb w = (Some err, w)"
      "err = InvalidWithdrawRequest \<or> err = InvalidProof"
    using finalizeWithdraw_early [of w h e v p cb] by blast
  then show thesis by (rule early)
qed

lemma finalizeWithdraw_ok_all:
  assumes "finalizeWithdraw e h v p cb w = (None, w')"
  shows "withdrawRequests w h \<noteq> 0 \<and>
    active (stakes w (withdrawRequests w h)) \<and>
    withdrawRequested (stakes w (withdrawRequests w h)) \<and>
    checkSignatures e [h] (abi_encode v) p \<and> accepts cb \<and>
    (\<exists>c. w' = (reenter (reenters cb) (handed_over w h v))\<lparr>rewardCoin := c\<rparr>)"
proof (cases e h v p cb w rule: finalizeWithdraw_outcome)
  case (early err)
  with assms show ?thesis by simp
next
  case (late r)
  with assms show ?thesis
    by (auto simp: mint_def Let_def split: if_splits)
qed

lemma finalizeWithdraw_ok:
  assumes "finalizeWithdraw e h v p cb w = (None, w')"
  shows "withdrawRequests w h \<noteq> 0"
    "active (stakes w (withdrawRequests w h))"
    "withdrawRequested (stakes w (withdrawRequests w h))"
    "checkSignatures e [h] (abi_encode v) p"
    "accepts cb"
    "\<exists>c. w' = (reenter (reenters cb) (handed_over w h v))\<lparr>rewardCoin := c\<rparr>"
  using finalizeWithdraw_ok_all [OF assms] by blast+

lemma finalizeWithdraw_TransferFailed_all:
  assumes "fst (finalizeWithdraw e h v p cb w) = Some TransferFailed"
  shows "withdrawRequests w h \<noteq> 0 \<and>
    active (stakes w (withdrawRequests w h)) \<and>
    withdrawRequested (stakes w (withdrawRequests w h)) \<and> \<not> accepts cb"
proof (cases e h v p cb w rule: finalizeWithdraw_outcome)
  case (early err)
  with assms show ?thesis by auto
next
  case (late r)
  with assms show ?thesis
    by (auto simp: mint_def Let_def split: if_splits)
qed

lemma finalizeWithdraw_TransferFailed:
  assumes "fst (finalizeWithdraw e h v p cb w) = Some TransferFailed"
  shows "withdrawRequests w h \<noteq> 0"
    "active (stakes w (withdrawRequests w h))"
    "withdrawRequested (stakes w (withdrawRequests w h))"
    "\<not> accepts cb"
  using finalizeWithdraw_TransferFailed_all [OF assms] by blast+

text \<open>
  When the transfer is refused, the body of \<open>finalizeWithdraw\<close> has already deleted
  both entries: only the revert brings them back.
\<close>

lemma finalizeWithdraw_refused:
  assumes "withdrawRequests w h = s" and "s \<noteq> 0" and "active (stakes w s)"
    and "withdrawRequested (stakes w s)" and "checkSignatures e [h] (abi_encode v) p"
    and "\<not> accepts cb"
  shows "finalizeWithdraw e h v p cb w =
     (Some TransferFailed,
      w\<lparr>withdrawRequests := (withdrawRequests w)(h := 0), stakes := (stakes w)(s := no_position)\<rparr>)"
proof -
  obtain r where "rewardAmount v = Some r" using rewardAmount_unat [of v] by blast
  with assms show ?thesis by (simp add: finalizeWithdraw_pending)
qed

text \<open>With a staker that accepts and makes no call of its own.\<close>

lemma finalizeWithdraw_quiet:
  assumes "withdrawRequests w h = s" and "s \<noteq> 0" and "active (stakes w s)"
    and "withdrawRequested (stakes w s)" and "checkSignatures e [h] (abi_encode v) p"
    and "accepts cb" and "reenters cb = []"
    and "rewardAmount v = Some r"
  shows "finalizeWithdraw e h v p cb w =
     (if minter (rewardCoin w) \<noteq> this w then (Some Unauthorized, handed_over w h v)
      else (None, (handed_over w h v)
             \<lparr>rewardCoin := (rewardCoin w)\<lparr>minted := minted (rewardCoin w) @ [(s, asEuint64 e (ucast r))]\<rparr>\<rparr>))"
  using assms
  by (simp add: finalizeWithdraw_pending [where s = s and r = r] mint_def handed_over_def)

lemma finalizeWithdraw_not_overflow:
  "fst (finalizeWithdraw e h v p cb w) \<noteq> Some RewardOverflow"
proof (cases e h v p cb w rule: finalizeWithdraw_outcome)
  case (early err)
  then show ?thesis by auto
next
  case (late r)
  then show ?thesis by (auto simp: mint_def Let_def)
qed

lemma finalizeWithdraw_sender:
  "finalizeWithdraw (e\<lparr>msg_sender := a\<rparr>) h v p cb w = finalizeWithdraw e h v p cb w"
  by (cases cb) (simp add: finalizeWithdraw.simps mint_def Let_def split: option.splits)

section \<open>Properties that every call preserves\<close>

text \<open>
  A property of the state that a committed \<open>stake\<close>, a committed
  \<open>requestWithdraw\<close>, the deletion and payment of \<open>finalizeWithdraw\<close> and a write
  to the token each preserve is preserved by every transaction, whatever the
  recipients of its payments do: their calls are transactions too.
\<close>

lemma preserved_all:
  fixes I :: "world \<Rightarrow> bool"
  assumes st: "\<And>e d w w'. I w \<Longrightarrow> stake e d w = (None, w') \<Longrightarrow> I w'"
    and rq: "\<And>e w w'. I w \<Longrightarrow> requestWithdraw e w = (None, w') \<Longrightarrow> I w'"
    and ho: "\<And>w h v. I w \<Longrightarrow> withdrawRequests w h \<noteq> 0 \<Longrightarrow>
        active (stakes w (withdrawRequests w h)) \<Longrightarrow>
        withdrawRequested (stakes w (withdrawRequests w h)) \<Longrightarrow> I (handed_over w h v)"
    and coin: "\<And>w c. I w \<Longrightarrow> I (w\<lparr>rewardCoin := c\<rparr>)"
  shows "I w \<Longrightarrow> fst (finalizeWithdraw e h v p cb w) = None \<Longrightarrow>
        I (snd (finalizeWithdraw e h v p cb w))"
    and "I w \<Longrightarrow> fst (body e c cb w) = None \<Longrightarrow> I (snd (body e c cb w))"
    and "I w \<Longrightarrow> I (snd (transact e c cb w))"
    and "I w \<Longrightarrow> I (reenter calls w)"
proof (induction e h v p cb w and e c cb w and e c cb w and calls w
    rule: finalizeWithdraw_body_transact_reenter.induct)
  case (1 e amt clearAmount decryptionProof accepted calls w)
  let ?cb = "Callback accepted calls"
  obtain w' where ok: "finalizeWithdraw e amt clearAmount decryptionProof ?cb w = (None, w')"
    using "1.prems"(2) by (cases "finalizeWithdraw e amt clearAmount decryptionProof ?cb w") simp
  note pre = finalizeWithdraw_ok [OF ok]
  obtain r where r: "rewardAmount clearAmount = Some r"
    using rewardAmount_unat [of clearAmount] by blast
  have small: "\<not> max_uint64 < r" using rewardAmount_le_max [OF r] by simp
  have "I (handed_over w amt clearAmount)"
    using "1.prems"(1) pre(1,2,3) by (rule ho)
  moreover have "handed_over w amt clearAmount =
      w\<lparr>withdrawRequests := (withdrawRequests w)(amt := 0)\<rparr>
       \<lparr>stakes := (stakes (w\<lparr>withdrawRequests := (withdrawRequests w)(amt := 0)\<rparr>))
          (withdrawRequests w amt := no_position)\<rparr>
       \<lparr>paid := paid (w\<lparr>withdrawRequests := (withdrawRequests w)(amt := 0)\<rparr>
          \<lparr>stakes := (stakes (w\<lparr>withdrawRequests := (withdrawRequests w)(amt := 0)\<rparr>))
          (withdrawRequests w amt := no_position)\<rparr>) @ [(withdrawRequests w amt, clearAmount)]\<rparr>"
    by (simp add: handed_over_def)
  ultimately have "I (reenter calls (handed_over w amt clearAmount))"
    using "1.IH" [OF refl pre(1) refl _ _ r small refl refl] pre(2,3,4,5) by simp
  moreover obtain c where "w' = (reenter calls (handed_over w amt clearAmount))\<lparr>rewardCoin := c\<rparr>"
    using pre(6) by auto
  ultimately have "I w'" by (simp add: coin)
  with ok show ?case by simp
next
  case (2 e d cb w)
  then show ?case using st [of w e d "snd (stake e d w)"] by (cases "stake e d w") simp
next
  case (3 e cb w)
  then show ?case
    using rq [of w e "snd (requestWithdraw e w)"] by (cases "requestWithdraw e w") simp
next
  case (4 e h v p cb w)
  then show ?case by simp
next
  case (5 e cb w)
  then show ?case by (simp add: receive_def)
next
  case (6 e a cb w)
  then show ?case
    by (cases "setMinter (msg_sender e) a (rewardCoin w)") (simp add: coin)
next
  case (7 e a cb w)
  then show ?case
    by (cases "transferOwnership (msg_sender e) a (rewardCoin w)") (simp add: coin)
next
  case (8 e a v cb w)
  then show ?case
    by (cases "mint e (msg_sender e) a v (rewardCoin w)") (simp add: coin)
next
  case (9 e c cb w)
  show ?case
  proof (cases e c cb w rule: transact_cases)
    case (reverted err)
    with "9.prems" show ?thesis by simp
  next
    case (committed w')
    with "9.IH" "9.prems" show ?thesis by simp
  qed
next
  case (10 w)
  then show ?case by simp
next
  case (11 e c cb calls w)
  then show ?case by simp
qed

text \<open>The payments logged are never taken back by a later call.\<close>

lemma reenter_paid: "\<exists>rest. paid (reenter calls w) = paid w @ rest"
proof -
  let ?I = "\<lambda>w'. \<exists>rest. paid w' = paid w @ rest"
  show ?thesis
  proof (rule preserved_all(4) [where I = ?I])
    show "?I w" by simp
  next
    fix e d w1 w1' assume "?I w1" "stake e d w1 = (None, w1')"
    then show "?I w1'"
      by (auto simp: stake_def Let_def split: if_splits option.splits)
  next
    fix e w1 w1' assume "?I w1" "requestWithdraw e w1 = (None, w1')"
    then show "?I w1'" by (auto dest: requestWithdraw_ok(5))
  next
    fix w1 :: world and h v assume "?I w1"
    then show "?I (handed_over w1 h v)" by (auto simp: handed_over_def)
  next
    fix w1 :: world and c assume "?I w1"
    then show "?I (w1\<lparr>rewardCoin := c\<rparr>)" by simp
  qed
qed

section \<open>The concrete run, state by state\<close>

lemma reachable_world_deployed: "reachable world_deployed"
  unfolding world_deployed_def by (intro reachable.intros)

lemma reachable_world_two_staked: "reachable world_two_staked"
  unfolding world_two_staked_def by (intro reachable.intros reachable_world_deployed)

lemma reachable_world_one_pending: "reachable world_one_pending"
  unfolding world_one_pending_def by (intro reachable.intros reachable_world_two_staked)

lemma reachable_world_minter_moved: "reachable world_minter_moved"
  unfolding world_minter_moved_def by (intro reachable.intros reachable_world_one_pending)

lemma world_deployed_eq:
  "world_deployed = \<lparr>stakes = (\<lambda>_. no_position), withdrawRequests = (\<lambda>_. 0),
      rewardCoin = \<lparr>owner = 9, minter = 100, minted = []\<rparr>, this = 100, paid = []\<rparr>"
  by (simp add: world_deployed_def transact.simps setMinter_def deployed_def mock_env_def)

lemma world_two_staked_eq:
  "world_two_staked = \<lparr>stakes = (\<lambda>_. no_position)
        (1 := \<lparr>amount = 5, unlockTimestamp = 1010, active = True, withdrawRequested = False\<rparr>,
         2 := \<lparr>amount = 5, unlockTimestamp = 1010, active = True, withdrawRequested = False\<rparr>),
      withdrawRequests = (\<lambda>_. 0),
      rewardCoin = \<lparr>owner = 9, minter = 100, minted = []\<rparr>, this = 100, paid = []\<rparr>"
  by (simp add: world_two_staked_def world_deployed_eq transact.simps stake_def mock_env_def
      max_uint64_def no_position_def checked_add64_def)

lemma world_one_pending_eq:
  "world_one_pending = \<lparr>stakes = (\<lambda>_. no_position)
        (1 := \<lparr>amount = 5, unlockTimestamp = 1010, active = True, withdrawRequested = True\<rparr>,
         2 := \<lparr>amount = 5, unlockTimestamp = 1010, active = True, withdrawRequested = False\<rparr>),
      withdrawRequests = (\<lambda>_. 0)(5 := 1),
      rewardCoin = \<lparr>owner = 9, minter = 100, minted = []\<rparr>, this = 100, paid = []\<rparr>"
  by (simp add: world_one_pending_def world_two_staked_eq transact.simps requestWithdraw_def
      mock_env_def fun_upd_twist)

lemma world_minter_moved_eq:
  "world_minter_moved = world_one_pending\<lparr>rewardCoin := \<lparr>owner = 9, minter = 200, minted = []\<rparr>\<rparr>"
  by (simp add: world_minter_moved_def world_one_pending_eq transact.simps setMinter_def
      mock_env_def)

lemmas example_simps =
  world_one_pending_eq world_two_staked_eq world_deployed_eq mock_env_def
  accepting_def refusing_def

section \<open>A requested withdrawal belongs to an active position\<close>

lemma stake_requested_implies_active:
  "requested_implies_active w \<Longrightarrow> stake e d w = (None, w') \<Longrightarrow> requested_implies_active w'"
  by (auto simp: stake_def requested_implies_active_def Let_def split: if_splits option.splits)

lemma requestWithdraw_requested_implies_active:
  "requested_implies_active w \<Longrightarrow> requestWithdraw e w = (None, w') \<Longrightarrow> requested_implies_active w'"
  by (auto simp: requestWithdraw_def requested_implies_active_def Let_def split: if_splits)

lemma handed_over_requested_implies_active:
  "requested_implies_active w \<Longrightarrow> requested_implies_active (handed_over w h v)"
  by (auto simp: requested_implies_active_def handed_over_def no_position_def)

lemma transact_requested_implies_active:
  assumes "requested_implies_active w"
  shows "requested_implies_active (snd (transact e c cb w))"
proof (rule preserved_all(3) [where I = requested_implies_active])
  show "requested_implies_active w" by fact
next
  fix w1 :: world and c1 assume "requested_implies_active w1"
  then show "requested_implies_active (w1\<lparr>rewardCoin := c1\<rparr>)"
    by (simp add: requested_implies_active_def)
qed (auto intro: stake_requested_implies_active requestWithdraw_requested_implies_active
    handed_over_requested_implies_active)

lemma deployed_requested_implies_active: "requested_implies_active (deployed self c)"
  by (simp add: requested_implies_active_def deployed_def no_position_def)

lemma reachable_requested_implies_active: "reachable w \<Longrightarrow> requested_implies_active w"
  by (induction rule: reachable.induct)
    (simp_all add: deployed_requested_implies_active transact_requested_implies_active)

text \<open>
  Claim C5. In every state the ledger can reach, an account whose position has
  \<open>withdrawRequested\<close> set has \<open>active\<close> set too; and each of \<open>stake\<close>,
  \<open>requestWithdraw\<close> and \<open>finalizeWithdraw\<close>, whether it commits or reverts and
  whatever the recipient of its payment does, takes a state where this holds to one
  where it holds.
\<close>

theorem requested_only_if_active:
  "(reachable w \<longrightarrow> (\<forall>a. withdrawRequested (stakes w a) \<longrightarrow> active (stakes w a)))
   \<and> (requested_implies_active w \<longrightarrow> requested_implies_active (snd (transact e (Stake d) cb w)))
   \<and> (requested_implies_active w \<longrightarrow>
        requested_implies_active (snd (transact e RequestWithdraw cb w)))
   \<and> (requested_implies_active w \<longrightarrow>
        requested_implies_active (snd (transact e (FinalizeWithdraw h v p) cb w)))"
  using reachable_requested_implies_active [of w]
  by (simp add: transact_requested_implies_active) (simp add: requested_implies_active_def)

text \<open>
  In the run: account 1 has requested and is active, and the next calls keep it so,
  also when account 1 stakes again while it is being paid.
\<close>

theorem requested_only_if_active_witness:
  "reachable world_one_pending
   \<and> requested_implies_active world_one_pending
   \<and> withdrawRequested (stakes world_one_pending 1) \<and> active (stakes world_one_pending 1)
   \<and> requested_implies_active
       (snd (transact (mock_env 3 5 2000) (Stake 10) accepting world_one_pending))
   \<and> requested_implies_active
       (snd (transact (mock_env 2 0 2000) RequestWithdraw accepting world_one_pending))
   \<and> requested_implies_active
       (snd (transact (mock_env 3 0 2000) (FinalizeWithdraw 5 5 []) restaking world_one_pending))"
proof -
  have req: "withdrawRequested (stakes world_one_pending 1)" by (simp add: example_simps)
  have inv: "requested_implies_active world_one_pending"
    using reachable_world_one_pending by (rule reachable_requested_implies_active)
  from requested_only_if_active [where w = world_one_pending and e = "mock_env 3 5 2000"
      and d = 10 and cb = accepting]
    requested_only_if_active [where w = world_one_pending and e = "mock_env 2 0 2000"
      and cb = accepting]
    requested_only_if_active [where w = world_one_pending and e = "mock_env 3 0 2000"
      and h = 5 and v = 5 and p = "[]" and cb = restaking]
    reachable_world_one_pending inv req
  show ?thesis by blast
qed

section \<open>The pending-withdrawal index\<close>

lemma stake_pending_index_exact:
  assumes "pending_index_exact w" and "stake e d w = (None, w')"
  shows "pending_index_exact w'"
proof -
  from assms(2) obtain pos where
    inactive: "\<not> active (stakes w (msg_sender e))"
    and w': "w' = w\<lparr>stakes := (stakes w)(msg_sender e := pos)\<rparr>"
    and pos: "active pos" "\<not> withdrawRequested pos"
    by (auto simp: stake_def Let_def split: if_splits option.splits)
  show ?thesis
    unfolding pending_index_exact_def
  proof (intro allI impI)
    fix h a assume a: "a \<noteq> (0 :: address)"
    from assms(1) a have old: "withdrawRequests w h = a \<longleftrightarrow>
        active (stakes w a) \<and> withdrawRequested (stakes w a) \<and> amount (stakes w a) = h"
      by (simp add: pending_index_exact_def)
    show "withdrawRequests w' h = a \<longleftrightarrow>
        active (stakes w' a) \<and> withdrawRequested (stakes w' a) \<and> amount (stakes w' a) = h"
    proof (cases "a = msg_sender e")
      case True
      with old inactive pos show ?thesis by (simp add: w')
    next
      case False
      with old show ?thesis by (simp add: w')
    qed
  qed
qed

lemma requestWithdraw_pending_index_exact:
  assumes "pending_index_exact w" and "requestWithdraw e w = (None, w')"
  shows "pending_index_exact w'"
proof -
  let ?s = "msg_sender e"
  let ?hs = "amount (stakes w ?s)"
  note ok = requestWithdraw_ok [OF assms(2)]
  show ?thesis
    unfolding pending_index_exact_def
  proof (intro allI impI)
    fix h a assume a: "a \<noteq> (0 :: address)"
    from assms(1) a have old: "\<And>k. withdrawRequests w k = a \<longleftrightarrow>
        active (stakes w a) \<and> withdrawRequested (stakes w a) \<and> amount (stakes w a) = k"
      by (simp add: pending_index_exact_def)
    show "withdrawRequests w' h = a \<longleftrightarrow>
        active (stakes w' a) \<and> withdrawRequested (stakes w' a) \<and> amount (stakes w' a) = h"
    proof (cases "a = ?s")
      case True
      with old [of h] ok(1,2) show ?thesis by (auto simp: ok(5))
    next
      case False
      from old [of ?hs] ok(4) a
      have "\<not> (active (stakes w a) \<and> withdrawRequested (stakes w a) \<and> amount (stakes w a) = ?hs)"
        by auto
      with False old [of h] show ?thesis by (auto simp: ok(5))
    qed
  qed
qed

lemma handed_over_pending_index_exact:
  assumes "pending_index_exact w" and "withdrawRequests w h0 \<noteq> 0"
  shows "pending_index_exact (handed_over w h0 v)"
proof -
  let ?s = "withdrawRequests w h0"
  let ?w' = "handed_over w h0 v"
  have st: "stakes ?w' = (stakes w)(?s := no_position)"
    and ix: "withdrawRequests ?w' = (withdrawRequests w)(h0 := 0)"
    by (simp_all add: handed_over_def)
  from assms have hs: "amount (stakes w ?s) = h0"
    by (auto simp: pending_index_exact_def)
  show ?thesis
    unfolding pending_index_exact_def
  proof (intro allI impI)
    fix h a assume a: "a \<noteq> (0 :: address)"
    from assms(1) a have old: "\<And>k. withdrawRequests w k = a \<longleftrightarrow>
        active (stakes w a) \<and> withdrawRequested (stakes w a) \<and> amount (stakes w a) = k"
      by (simp add: pending_index_exact_def)
    show "withdrawRequests ?w' h = a \<longleftrightarrow>
        active (stakes ?w' a) \<and> withdrawRequested (stakes ?w' a) \<and> amount (stakes ?w' a) = h"
    proof (cases "a = ?s")
      case True
      with old [of h] hs a show ?thesis by (auto simp: st ix no_position_def)
    next
      case False
      with old [of h] old [of h0] a show ?thesis by (auto simp: st ix)
    qed
  qed
qed

lemma transact_pending_index_exact:
  assumes "pending_index_exact w"
  shows "pending_index_exact (snd (transact e c cb w))"
proof (rule preserved_all(3) [where I = pending_index_exact])
  show "pending_index_exact w" by fact
next
  fix w1 :: world and c1 assume "pending_index_exact w1"
  then show "pending_index_exact (w1\<lparr>rewardCoin := c1\<rparr>)"
    by (simp add: pending_index_exact_def)
qed (auto intro: stake_pending_index_exact requestWithdraw_pending_index_exact
    handed_over_pending_index_exact)

lemma deployed_pending_index_exact: "pending_index_exact (deployed self c)"
  by (auto simp: pending_index_exact_def deployed_def no_position_def)

lemma reachable_pending_index_exact: "reachable w \<Longrightarrow> pending_index_exact w"
  by (induction rule: reachable.induct)
    (simp_all add: deployed_pending_index_exact transact_pending_index_exact)

text \<open>
  Claim C2. In every state the ledger can reach, the index maps handle \<open>h\<close> to
  account \<open>a\<close> exactly when the position of \<open>a\<close> is active, has its withdrawal
  requested, and holds the handle \<open>h\<close>: settling deletes the position and the entry
  together. And a \<open>requestWithdraw\<close> that passes the checks on the position but whose
  handle is already a key of the index is rejected with \<open>InvalidWithdrawRequest\<close>, the
  entry and every position left as they were.
\<close>

theorem pending_index_invariant:
  "(reachable w \<longrightarrow>
      (\<forall>h a. a \<noteq> 0 \<longrightarrow>
         (withdrawRequests w h = a \<longleftrightarrow>
            active (stakes w a) \<and> withdrawRequested (stakes w a) \<and> amount (stakes w a) = h)))
   \<and> (active (stakes w (msg_sender e)) \<and> \<not> withdrawRequested (stakes w (msg_sender e))
        \<and> \<not> block_timestamp e < ucast (unlockTimestamp (stakes w (msg_sender e)))
        \<and> withdrawRequests w (amount (stakes w (msg_sender e))) \<noteq> 0
      \<longrightarrow> transact e RequestWithdraw cb w = (Some InvalidWithdrawRequest, w))"
proof (intro conjI impI)
  assume "reachable w"
  then show "\<forall>h a. a \<noteq> 0 \<longrightarrow>
         (withdrawRequests w h = a \<longleftrightarrow>
            active (stakes w a) \<and> withdrawRequested (stakes w a) \<and> amount (stakes w a) = h)"
    using reachable_pending_index_exact [of w] by (simp add: pending_index_exact_def)
next
  assume "active (stakes w (msg_sender e)) \<and> \<not> withdrawRequested (stakes w (msg_sender e))
        \<and> \<not> block_timestamp e < ucast (unlockTimestamp (stakes w (msg_sender e)))
        \<and> withdrawRequests w (amount (stakes w (msg_sender e))) \<noteq> 0"
  then have "fst (body e RequestWithdraw cb w) = Some InvalidWithdrawRequest"
    using requestWithdraw_collision [of w e] by simp
  then show "transact e RequestWithdraw cb w = (Some InvalidWithdrawRequest, w)"
    by (rule transact_error)
qed

text \<open>
  In the run: handle 5 is pending for account 1, and account 2, whose position holds
  the same handle, is turned away.
\<close>

theorem pending_index_invariant_witness:
  "reachable world_one_pending
   \<and> active (stakes world_one_pending (msg_sender (mock_env 2 0 2000)))
   \<and> \<not> withdrawRequested (stakes world_one_pending (msg_sender (mock_env 2 0 2000)))
   \<and> \<not> block_timestamp (mock_env 2 0 2000)
         < ucast (unlockTimestamp (stakes world_one_pending (msg_sender (mock_env 2 0 2000))))
   \<and> withdrawRequests world_one_pending
        (amount (stakes world_one_pending (msg_sender (mock_env 2 0 2000)))) \<noteq> 0
   \<and> (withdrawRequests world_one_pending 5 = 1 \<longleftrightarrow>
        active (stakes world_one_pending 1) \<and> withdrawRequested (stakes world_one_pending 1)
        \<and> amount (stakes world_one_pending 1) = 5)
   \<and> transact (mock_env 2 0 2000) RequestWithdraw accepting world_one_pending
       = (Some InvalidWithdrawRequest, world_one_pending)"
proof -
  have h: "active (stakes world_one_pending (msg_sender (mock_env 2 0 2000)))
   \<and> \<not> withdrawRequested (stakes world_one_pending (msg_sender (mock_env 2 0 2000)))
   \<and> \<not> block_timestamp (mock_env 2 0 2000)
         < ucast (unlockTimestamp (stakes world_one_pending (msg_sender (mock_env 2 0 2000))))
   \<and> withdrawRequests world_one_pending
        (amount (stakes world_one_pending (msg_sender (mock_env 2 0 2000)))) \<noteq> 0"
    by (simp add: example_simps)
  have one: "(1 :: address) \<noteq> 0" by simp
  from pending_index_invariant [of world_one_pending "mock_env 2 0 2000" accepting]
    reachable_world_one_pending h one
  show ?thesis by blast
qed

section \<open>Errors\<close>

text \<open>
  Claim C8. A \<open>finalizeWithdraw\<close> on a handle that has no entry in the index fails
  with \<open>InvalidWithdrawRequest\<close>, whatever the clear amount and the proof, before
  anything is written: the state at the revert is the state before the call.
\<close>

theorem finalize_unknown_handle:
  "withdrawRequests w h = 0 \<Longrightarrow>
     finalizeWithdraw e h clearAmount p cb w = (Some InvalidWithdrawRequest, w)
     \<and> transact e (FinalizeWithdraw h clearAmount p) cb w = (Some InvalidWithdrawRequest, w)"
  by (simp add: transact.simps finalizeWithdraw_no_entry)

theorem finalize_unknown_handle_witness:
  "withdrawRequests world_one_pending 7 = 0
   \<and> transact (mock_env 3 0 2000) (FinalizeWithdraw 7 5 []) accepting world_one_pending
       = (Some InvalidWithdrawRequest, world_one_pending)"
proof -
  have h: "withdrawRequests world_one_pending 7 = 0" by (simp add: example_simps)
  from finalize_unknown_handle [OF h, of "mock_env 3 0 2000" 5 "[]" accepting] h
  show ?thesis by blast
qed

text \<open>
  Claim C9. For every 64-bit clear amount the reward is at most \<open>2^64 - 1\<close>, so no
  call of \<open>finalizeWithdraw\<close> ends in \<open>RewardOverflow\<close>.
\<close>

theorem reward_fits_uint64:
  "(\<exists>r. rewardAmount clearAmount = Some r \<and> r \<le> max_uint64)
   \<and> fst (finalizeWithdraw e h clearAmount p cb w) \<noteq> Some RewardOverflow
   \<and> fst (transact e (FinalizeWithdraw h clearAmount p) cb w) \<noteq> Some RewardOverflow"
  using rewardAmount_unat [of clearAmount] rewardAmount_le_max [of clearAmount]
    finalizeWithdraw_not_overflow [of e h clearAmount p cb w]
  by (auto simp: fst_transact)

text \<open>At the largest clear amount.\<close>

theorem reward_fits_uint64_witness:
  "(\<exists>r. rewardAmount 18446744073709551615 = Some r \<and> r \<le> max_uint64)
   \<and> fst (transact (mock_env 3 0 2000) (FinalizeWithdraw 5 18446744073709551615 []) accepting
        world_one_pending) \<noteq> Some RewardOverflow"
  using reward_fits_uint64 [of 18446744073709551615 "mock_env 3 0 2000" 5 "[]" accepting
      world_one_pending]
  by blast

text \<open>
  Claim C3. A call that aborts, with whatever error, leaves the whole state as it was
  before the call. In particular, after a \<open>finalizeWithdraw\<close> aborted by
  \<open>TransferFailed\<close> the entry is still in the index and the staker's position is
  still active and requested, and the same call made again, once the recipient
  accepts the payment, goes through.
\<close>

theorem revert_restores_state:
  "(fst (transact e c cb w) = Some err \<longrightarrow> snd (transact e c cb w) = w)
   \<and> (fst (transact e (FinalizeWithdraw h v p) cb w) = Some TransferFailed \<longrightarrow>
        snd (transact e (FinalizeWithdraw h v p) cb w) = w
        \<and> withdrawRequests w h \<noteq> 0
        \<and> active (stakes w (withdrawRequests w h))
        \<and> withdrawRequested (stakes w (withdrawRequests w h))
        \<and> (\<forall>(e' :: env) cb'. checkSignatures e' [h] (abi_encode v) p
                  \<and> accepts cb' \<and> reenters cb' = []
                  \<and> minter (rewardCoin w) = this w
              \<longrightarrow> fst (transact e' (FinalizeWithdraw h v p) cb'
                        (snd (transact e (FinalizeWithdraw h v p) cb w))) = None))"
proof (intro conjI impI allI)
  assume "fst (transact e c cb w) = Some err"
  then show "snd (transact e c cb w) = w" by (rule snd_transact_error)
next
  assume failed: "fst (transact e (FinalizeWithdraw h v p) cb w) = Some TransferFailed"
  then have body: "fst (finalizeWithdraw e h v p cb w) = Some TransferFailed"
    by (simp add: fst_transact)
  from failed show same: "snd (transact e (FinalizeWithdraw h v p) cb w) = w"
    by (rule snd_transact_error)
  from finalizeWithdraw_TransferFailed [OF body]
  show pending: "withdrawRequests w h \<noteq> 0" "active (stakes w (withdrawRequests w h))"
    "withdrawRequested (stakes w (withdrawRequests w h))" by simp_all
  fix e' :: env and cb'
  assume retry: "checkSignatures e' [h] (abi_encode v) p \<and> accepts cb' \<and> reenters cb' = []
                  \<and> minter (rewardCoin w) = this w"
  obtain r where r: "rewardAmount v = Some r" using rewardAmount_unat [of v] by blast
  from retry pending r have "fst (finalizeWithdraw e' h v p cb' w) = None"
    by (simp add: finalizeWithdraw_quiet [where s = "withdrawRequests w h"])
  then show "fst (transact e' (FinalizeWithdraw h v p) cb'
                        (snd (transact e (FinalizeWithdraw h v p) cb w))) = None"
    by (simp add: same fst_transact)
qed

text \<open>In the run: account 1 refuses the payment at time 2000 and accepts it at 2001.\<close>

theorem revert_restores_state_witness:
  "fst (transact (mock_env 3 0 2000) (FinalizeWithdraw 5 5 []) refusing world_one_pending)
       = Some TransferFailed
   \<and> snd (transact (mock_env 3 0 2000) (FinalizeWithdraw 5 5 []) refusing world_one_pending)
       = world_one_pending
   \<and> active (stakes world_one_pending (withdrawRequests world_one_pending 5))
   \<and> fst (transact (mock_env 3 0 2001) (FinalizeWithdraw 5 5 []) accepting
        (snd (transact (mock_env 3 0 2000) (FinalizeWithdraw 5 5 []) refusing
           world_one_pending))) = None"
proof -
  have "fst (finalizeWithdraw (mock_env 3 0 2000) 5 5 [] refusing world_one_pending)
      = Some TransferFailed"
    by (simp add: finalizeWithdraw.simps rewardAmount_5 max_uint64_def example_simps)
  then have h: "fst (transact (mock_env 3 0 2000) (FinalizeWithdraw 5 5 []) refusing
      world_one_pending) = Some TransferFailed"
    by (simp add: fst_transact)
  have retry: "checkSignatures (mock_env 3 0 2001) [5] (abi_encode 5) []
     \<and> accepts accepting \<and> reenters accepting = []
     \<and> minter (rewardCoin world_one_pending) = this world_one_pending"
    by (simp add: example_simps)
  from revert_restores_state [where e = "mock_env 3 0 2000" and c = "FinalizeWithdraw 5 5 []"
      and cb = refusing and w = world_one_pending and err = TransferFailed and h = 5 and v = 5
      and p = "[]"] h retry
  show ?thesis by blast
qed

section \<open>Requesting a withdrawal\<close>

text \<open>
  Claim C4, as stated, fails: at or after the unlock time a first
  \<open>requestWithdraw\<close> does not always succeed. In the run, account 2 holds an active
  position that is not yet requested and is past its unlock time, and its
  \<open>requestWithdraw\<close> fails with \<open>InvalidWithdrawRequest\<close>, because its handle is the
  key of account 1's pending withdrawal.
\<close>

theorem requestWithdraw_collision_counterexample:
  "reachable world_one_pending
   \<and> active (stakes world_one_pending 2) \<and> \<not> withdrawRequested (stakes world_one_pending 2)
   \<and> msg_sender (mock_env 2 0 2000) = 2
   \<and> ucast (unlockTimestamp (stakes world_one_pending 2)) \<le> block_timestamp (mock_env 2 0 2000)
   \<and> fst (transact (mock_env 2 0 2000) RequestWithdraw accepting world_one_pending)
       = Some InvalidWithdrawRequest"
  using reachable_world_one_pending
  by (simp add: transact.simps requestWithdraw_def) (simp add: example_simps)

text \<open>
  Claim C4, amended. For a caller holding an active, not-yet-requested position:
  before the unlock time every \<open>requestWithdraw\<close> fails with \<open>WithdrawNotReady\<close>;
  at or after the unlock time it fails with \<open>InvalidWithdrawRequest\<close> when the
  position's handle is already a key of the index, and succeeds otherwise; and once
  it has succeeded, a second \<open>requestWithdraw\<close> by the same caller fails with
  \<open>WithdrawAlreadyRequested\<close>.
\<close>

theorem requestWithdraw_outcomes:
  assumes "active (stakes w (msg_sender e))" and "\<not> withdrawRequested (stakes w (msg_sender e))"
  shows "(block_timestamp e < ucast (unlockTimestamp (stakes w (msg_sender e))) \<longrightarrow>
            transact e RequestWithdraw cb w = (Some WithdrawNotReady, w))
     \<and> (\<not> block_timestamp e < ucast (unlockTimestamp (stakes w (msg_sender e)))
          \<and> withdrawRequests w (amount (stakes w (msg_sender e))) \<noteq> 0 \<longrightarrow>
            transact e RequestWithdraw cb w = (Some InvalidWithdrawRequest, w))
     \<and> (\<not> block_timestamp e < ucast (unlockTimestamp (stakes w (msg_sender e)))
          \<and> withdrawRequests w (amount (stakes w (msg_sender e))) = 0 \<longrightarrow>
            fst (transact e RequestWithdraw cb w) = None
            \<and> (\<forall>e' cb'. msg_sender e' = msg_sender e \<longrightarrow>
                  transact e' RequestWithdraw cb' (snd (transact e RequestWithdraw cb w))
                    = (Some WithdrawAlreadyRequested, snd (transact e RequestWithdraw cb w))))"
  using assms
  by (auto simp: transact.simps requestWithdraw_def Let_def)

text \<open>
  In the run: account 1 is too early at time 1005, succeeds at 2000 and is refused
  at 2001; account 2 meets the pending handle.
\<close>

theorem requestWithdraw_outcomes_witness:
  "active (stakes world_two_staked (msg_sender (mock_env 1 0 1005)))
   \<and> \<not> withdrawRequested (stakes world_two_staked (msg_sender (mock_env 1 0 1005)))
   \<and> transact (mock_env 1 0 1005) RequestWithdraw accepting world_two_staked
       = (Some WithdrawNotReady, world_two_staked)
   \<and> fst (transact (mock_env 1 0 2000) RequestWithdraw accepting world_two_staked) = None
   \<and> transact (mock_env 1 0 2001) RequestWithdraw accepting
        (snd (transact (mock_env 1 0 2000) RequestWithdraw accepting world_two_staked))
       = (Some WithdrawAlreadyRequested, snd (transact (mock_env 1 0 2000) RequestWithdraw accepting world_two_staked))
   \<and> transact (mock_env 2 0 2000) RequestWithdraw accepting world_one_pending
       = (Some InvalidWithdrawRequest, world_one_pending)"
proof -
  have a1: "active (stakes world_two_staked (msg_sender (mock_env 1 0 1005)))"
    and a2: "\<not> withdrawRequested (stakes world_two_staked (msg_sender (mock_env 1 0 1005)))"
    and early: "block_timestamp (mock_env 1 0 1005)
        < ucast (unlockTimestamp (stakes world_two_staked (msg_sender (mock_env 1 0 1005))))"
    by (simp_all add: example_simps)
  have b1: "active (stakes world_two_staked (msg_sender (mock_env 1 0 2000)))"
    and b2: "\<not> withdrawRequested (stakes world_two_staked (msg_sender (mock_env 1 0 2000)))"
    and late: "\<not> block_timestamp (mock_env 1 0 2000)
        < ucast (unlockTimestamp (stakes world_two_staked (msg_sender (mock_env 1 0 2000))))
      \<and> withdrawRequests world_two_staked
          (amount (stakes world_two_staked (msg_sender (mock_env 1 0 2000)))) = 0"
    and same: "msg_sender (mock_env 1 0 2001) = msg_sender (mock_env 1 0 2000)"
    by (simp_all add: example_simps)
  have c1: "active (stakes world_one_pending (msg_sender (mock_env 2 0 2000)))"
    and c2: "\<not> withdrawRequested (stakes world_one_pending (msg_sender (mock_env 2 0 2000)))"
    and taken: "\<not> block_timestamp (mock_env 2 0 2000)
        < ucast (unlockTimestamp (stakes world_one_pending (msg_sender (mock_env 2 0 2000))))
      \<and> withdrawRequests world_one_pending
          (amount (stakes world_one_pending (msg_sender (mock_env 2 0 2000)))) \<noteq> 0"
    by (simp_all add: example_simps)
  from requestWithdraw_outcomes [OF a1 a2, of accepting] early
    requestWithdraw_outcomes [OF b1 b2, of accepting] late same
    requestWithdraw_outcomes [OF c1 c2, of accepting] taken a1 a2
  show ?thesis by blast
qed

section \<open>Staking\<close>

text \<open>
  Claim C7. After a successful \<open>stake\<close>, \<open>getStake\<close> of the caller returns
  \<open>active = true\<close>, \<open>withdrawRequested = false\<close> and an unlock time that is the
  block's timestamp plus the lock duration, as a sum of integers with no wrap-around.
  The ledger reads the timestamp through \<^verbatim>\<open>uint64(block.timestamp)\<close>; block
  timestamps are 64-bit quantities. A successful call had a non-zero 64-bit deposit,
  a non-zero duration and a caller with no active position.
\<close>

theorem stake_then_getStake:
  assumes "fst (transact e (Stake d) cb w) = None" and "unat (block_timestamp e) < 2 ^ 64"
  shows "\<exists>u. getStake (snd (transact e (Stake d) cb w)) (msg_sender e)
               = (asEuint64 e (ucast (msg_value e)), u, True, False)
     \<and> unat u = unat (block_timestamp e) + unat d
     \<and> msg_value e \<noteq> 0 \<and> msg_value e \<le> max_uint64 \<and> d \<noteq> 0
     \<and> \<not> active (stakes w (msg_sender e))"
proof -
  from assms(1) have ok: "fst (stake e d w) = None" by (simp add: fst_transact)
  then obtain u where u: "checked_add64 (ucast (block_timestamp e)) d = Some u"
    and pre: "msg_value e \<noteq> 0" "msg_value e \<le> max_uint64" "d \<noteq> 0"
      "\<not> active (stakes w (msg_sender e))"
    by (auto simp: stake_def Let_def split: if_splits option.splits)
  from u have "unat u = unat (ucast (block_timestamp e) :: uint64) + unat d"
    by (auto simp: checked_add64_def unat_add_lem [THEN iffD1] split: if_splits)
  then have uu: "unat u = unat (block_timestamp e) + unat d"
    using assms(2) by (simp add: unat_ucast_256_64)
  have "stake e d w = (None, w\<lparr>stakes := (stakes w)(msg_sender e :=
                \<lparr>amount = asEuint64 e (ucast (msg_value e)), unlockTimestamp = u,
                 active = True, withdrawRequested = False\<rparr>)\<rparr>)"
    using u pre by (simp add: stake_def Let_def)
  then have "getStake (snd (transact e (Stake d) cb w)) (msg_sender e)
               = (asEuint64 e (ucast (msg_value e)), u, True, False)"
    by (simp add: transact.simps getStake_def)
  with uu pre show ?thesis by blast
qed

text \<open>In the run: account 1 stakes at time 1000 for 10 seconds and unlocks at 1010.\<close>

theorem stake_then_getStake_witness:
  "fst (transact (mock_env 1 5 1000) (Stake 10) accepting world_deployed) = None
   \<and> unat (block_timestamp (mock_env 1 5 1000)) < 2 ^ 64
   \<and> getStake (snd (transact (mock_env 1 5 1000) (Stake 10) accepting world_deployed)) 1
       = (5, 1010, True, False)"
proof -
  have h1: "fst (transact (mock_env 1 5 1000) (Stake 10) accepting world_deployed) = None"
    by (simp add: fst_transact stake_def max_uint64_def checked_add64_def no_position_def
        example_simps)
  have h2: "unat (block_timestamp (mock_env 1 5 1000)) < 2 ^ 64" by (simp add: example_simps)
  from stake_then_getStake [OF h1 h2]
  obtain u where u: "getStake (snd (transact (mock_env 1 5 1000) (Stake 10) accepting world_deployed))
        (msg_sender (mock_env 1 5 1000))
      = (asEuint64 (mock_env 1 5 1000) (ucast (msg_value (mock_env 1 5 1000))), u, True, False)"
    "unat u = unat (block_timestamp (mock_env 1 5 1000)) + unat (10 :: uint64)"
    by blast
  from u(2) have "unat u = unat (1010 :: uint64)" by (simp add: example_simps)
  then have "u = 1010" by (simp only: word_unat_eq_iff)
  with u(1) h1 h2 show ?thesis by (simp add: example_simps)
qed

section \<open>Settling a withdrawal\<close>

lemma finalizeWithdraw_commit:
  assumes "finalizeWithdraw e h v p cb w = (None, w')"
  shows "\<exists>r. rewardAmount v = Some r
     \<and> w' = (reenter (reenters cb) (handed_over w h v))
          \<lparr>rewardCoin := (rewardCoin (reenter (reenters cb) (handed_over w h v)))
             \<lparr>minted := minted (rewardCoin (reenter (reenters cb) (handed_over w h v)))
                @ [(withdrawRequests w h, asEuint64 e (ucast r))]\<rparr>\<rparr>"
proof (cases e h v p cb w rule: finalizeWithdraw_outcome)
  case (early err)
  with assms show ?thesis by simp
next
  case (late r)
  with assms show ?thesis
    by (auto simp: mint_def Let_def split: if_splits)
qed

lemma restaking_run:
  "finalizeWithdraw (mock_env 3 0 2000) 5 5 [] restaking world_one_pending =
     (None, \<lparr>stakes = (\<lambda>_. no_position)
        (1 := \<lparr>amount = 5, unlockTimestamp = 2011, active = True, withdrawRequested = False\<rparr>,
         2 := \<lparr>amount = 5, unlockTimestamp = 1010, active = True, withdrawRequested = False\<rparr>),
      withdrawRequests = (\<lambda>_. 0),
      rewardCoin = \<lparr>owner = 9, minter = 100, minted = [(1, 0)]\<rparr>, this = 100,
      paid = [(1, 5)]\<rparr>)"
  by (simp add: finalizeWithdraw.simps restaking_def rewardAmount_5 max_uint64_def transact.simps
      stake_def checked_add64_def mint_def no_position_def example_simps fun_upd_twist
      fun_upd_idem_iff)

text \<open>
  Claim C1, as stated, fails: a verified proof for a pending handle is not enough for
  the settlement the claim describes. In the run, handle 5 is pending for account 1,
  whose position is active and requested, and the proof verifies. When account 1
  refuses the payment the call aborts with \<open>TransferFailed\<close>: the position is still
  active, nothing is paid and nothing is minted. When the ledger is no longer the
  token's minter the call aborts with \<open>Unauthorized\<close> and the position is still
  active. And when account 1 accepts the payment but stakes again while it holds
  control, the call commits and \<open>getStake\<close> reports account 1 active.
\<close>

theorem finalize_not_settled_counterexample:
  "reachable world_one_pending
   \<and> withdrawRequests world_one_pending 5 = 1
   \<and> active (stakes world_one_pending 1) \<and> withdrawRequested (stakes world_one_pending 1)
   \<and> checkSignatures (mock_env 3 0 2000) [5] (abi_encode 5) []
   \<and> fst (transact (mock_env 3 0 2000) (FinalizeWithdraw 5 5 []) refusing world_one_pending)
       = Some TransferFailed
   \<and> getStake (snd (transact (mock_env 3 0 2000) (FinalizeWithdraw 5 5 []) refusing
         world_one_pending)) 1 = (5, 1010, True, True)
   \<and> paid (snd (transact (mock_env 3 0 2000) (FinalizeWithdraw 5 5 []) refusing
         world_one_pending)) = []
   \<and> minted (rewardCoin (snd (transact (mock_env 3 0 2000) (FinalizeWithdraw 5 5 []) refusing
         world_one_pending))) = []
   \<and> reachable world_minter_moved
   \<and> withdrawRequests world_minter_moved 5 = 1
   \<and> active (stakes world_minter_moved 1) \<and> withdrawRequested (stakes world_minter_moved 1)
   \<and> fst (transact (mock_env 3 0 2000) (FinalizeWithdraw 5 5 []) accepting world_minter_moved)
       = Some Unauthorized
   \<and> getStake (snd (transact (mock_env 3 0 2000) (FinalizeWithdraw 5 5 []) accepting
         world_minter_moved)) 1 = (5, 1010, True, True)
   \<and> fst (transact (mock_env 3 0 2000) (FinalizeWithdraw 5 5 []) restaking world_one_pending)
       = None
   \<and> getStake (snd (transact (mock_env 3 0 2000) (FinalizeWithdraw 5 5 []) restaking
         world_one_pending)) 1 = (5, 2011, True, False)"
proof -
  have "fst (finalizeWithdraw (mock_env 3 0 2000) 5 5 [] refusing world_one_pending)
      = Some TransferFailed"
    by (simp add: finalizeWithdraw.simps rewardAmount_5 max_uint64_def example_simps)
  then have t: "transact (mock_env 3 0 2000) (FinalizeWithdraw 5 5 []) refusing world_one_pending
      = (Some TransferFailed, world_one_pending)"
    by (simp add: transact_error)
  have "fst (finalizeWithdraw (mock_env 3 0 2000) 5 5 [] accepting world_minter_moved)
      = Some Unauthorized"
    by (simp add: finalizeWithdraw.simps mint_def rewardAmount_5 max_uint64_def
        world_minter_moved_eq example_simps)
  then have u: "transact (mock_env 3 0 2000) (FinalizeWithdraw 5 5 []) accepting world_minter_moved
      = (Some Unauthorized, world_minter_moved)"
    by (simp add: transact_error)
  have r: "transact (mock_env 3 0 2000) (FinalizeWithdraw 5 5 []) restaking world_one_pending
      = finalizeWithdraw (mock_env 3 0 2000) 5 5 [] restaking world_one_pending"
    by (simp add: transact.simps restaking_run)
  show ?thesis
    unfolding t u r restaking_run
    using reachable_world_one_pending reachable_world_minter_moved
    by (simp add: getStake_def) (simp add: world_minter_moved_eq example_simps)
qed

text \<open>
  Claim C1, amended. Let handle \<open>h\<close> be in the index for staker \<open>s\<close>, whose
  position is active and requested, and let the proof of a \<open>finalizeWithdraw\<close>
  verify. If \<open>s\<close> accepts the payment without calling back into the contracts, and
  the ledger is the token's minter, the call commits: the position of \<open>s\<close> is
  deleted, so that \<open>getStake\<close> reports it inactive; exactly \<open>clearAmount\<close> is paid
  to \<open>s\<close>; the encryption of exactly \<open>clearAmount * 1000e6\<close> divided by \<open>1e18\<close>,
  rounded down, is minted to \<open>s\<close>; and \<open>h\<close> leaves the index, so that every
  further \<open>finalizeWithdraw\<close> on \<open>h\<close> fails with \<open>InvalidWithdrawRequest\<close>. If
  \<open>s\<close> refuses the payment the call reverts with \<open>TransferFailed\<close>, and if \<open>s\<close>
  accepts without calling back while the ledger is not the minter it reverts with
  \<open>Unauthorized\<close>; either way the state is as before the call.
\<close>

theorem finalize_settles:
  assumes "withdrawRequests w h = s" and "s \<noteq> 0" and "active (stakes w s)"
    and "withdrawRequested (stakes w s)" and "checkSignatures e [h] (abi_encode v) p"
  shows "(accepts cb \<and> reenters cb = [] \<and> minter (rewardCoin w) = this w \<longrightarrow>
       (\<exists>w' r. transact e (FinalizeWithdraw h v p) cb w = (None, w')
          \<and> getStake w' s = (0, 0, False, False)
          \<and> paid w' = paid w @ [(s, v)]
          \<and> unat r = unat v * (1000 * 10 ^ 6) div 10 ^ 18
          \<and> minted (rewardCoin w') = minted (rewardCoin w) @ [(s, asEuint64 e r)]
          \<and> withdrawRequests w' h = 0
          \<and> (\<forall>e' v' p' cb'. transact e' (FinalizeWithdraw h v' p') cb' w'
                = (Some InvalidWithdrawRequest, w'))))
     \<and> (\<not> accepts cb \<longrightarrow> transact e (FinalizeWithdraw h v p) cb w = (Some TransferFailed, w))
     \<and> (accepts cb \<and> reenters cb = [] \<and> minter (rewardCoin w) \<noteq> this w \<longrightarrow>
          transact e (FinalizeWithdraw h v p) cb w = (Some Unauthorized, w))"
proof (intro conjI impI)
  obtain r where r: "rewardAmount v = Some r"
    and ur: "unat r = unat v * 1000000000 div 1000000000000000000"
    using rewardAmount_unat [of v] by blast
  {
    assume quiet: "accepts cb \<and> reenters cb = [] \<and> minter (rewardCoin w) = this w"
    let ?w' = "(handed_over w h v)
             \<lparr>rewardCoin := (rewardCoin w)\<lparr>minted := minted (rewardCoin w) @ [(s, asEuint64 e (ucast r))]\<rparr>\<rparr>"
    have "finalizeWithdraw e h v p cb w = (None, ?w')"
      using assms quiet r by (simp add: finalizeWithdraw_quiet [where s = s and r = r])
    then have 1: "transact e (FinalizeWithdraw h v p) cb w = (None, ?w')"
      by (simp add: transact.simps)
    have "unat r \<le> unat v" unfolding ur by simp
    then have "unat r < 2 ^ 64" using unat_lt_2p64 [of v] by simp
    then have 2: "unat (ucast r :: uint64) = unat v * (1000 * 10 ^ 6) div 10 ^ 18"
      using ur by (simp add: unat_ucast_256_64)
    have 3: "getStake ?w' s = (0, 0, False, False)"
      using assms(1) by (simp add: getStake_def no_position_def handed_over_def)
    have 4: "withdrawRequests ?w' h = 0" by (simp add: handed_over_def)
    then have 5: "\<forall>e' v' p' cb'. transact e' (FinalizeWithdraw h v' p') cb' ?w'
        = (Some InvalidWithdrawRequest, ?w')"
      by (simp add: transact.simps finalizeWithdraw_no_entry)
    have 6: "paid ?w' = paid w @ [(s, v)]"
      and 7: "minted (rewardCoin ?w') = minted (rewardCoin w) @ [(s, asEuint64 e (ucast r))]"
      using assms(1) by (simp_all add: handed_over_def)
    show "\<exists>w' r. transact e (FinalizeWithdraw h v p) cb w = (None, w')
          \<and> getStake w' s = (0, 0, False, False)
          \<and> paid w' = paid w @ [(s, v)]
          \<and> unat r = unat v * (1000 * 10 ^ 6) div 10 ^ 18
          \<and> minted (rewardCoin w') = minted (rewardCoin w) @ [(s, asEuint64 e r)]
          \<and> withdrawRequests w' h = 0
          \<and> (\<forall>e' v' p' cb'. transact e' (FinalizeWithdraw h v' p') cb' w'
                = (Some InvalidWithdrawRequest, w'))"
      apply (rule exI [of _ ?w'])
      apply (rule exI [of _ "ucast r :: uint64"])
      using 1 2 3 4 5 6 7 apply blast
      done
  }
  {
    assume "\<not> accepts cb"
    with assms have "fst (body e (FinalizeWithdraw h v p) cb w) = Some TransferFailed"
      by (simp add: finalizeWithdraw_refused [where s = s])
    then show "transact e (FinalizeWithdraw h v p) cb w = (Some TransferFailed, w)"
      by (rule transact_error)
  }
  {
    assume "accepts cb \<and> reenters cb = [] \<and> minter (rewardCoin w) \<noteq> this w"
    with assms r have "fst (body e (FinalizeWithdraw h v p) cb w) = Some Unauthorized"
      by (simp add: finalizeWithdraw_quiet [where s = s and r = r])
    then show "transact e (FinalizeWithdraw h v p) cb w = (Some Unauthorized, w)"
      by (rule transact_error)
  }
qed

text \<open>
  In the run: a third account settles account 1's withdrawal of 5 wei, which earns a
  reward of 0 units; account 1 refusing the payment, and the ledger without the
  minter role, each leave the state as it was.
\<close>

theorem finalize_settles_witness:
  "withdrawRequests world_one_pending 5 = 1 \<and> (1 :: address) \<noteq> 0
   \<and> active (stakes world_one_pending 1) \<and> withdrawRequested (stakes world_one_pending 1)
   \<and> checkSignatures (mock_env 3 0 2000) [5] (abi_encode 5) []
   \<and> accepts accepting \<and> reenters accepting = []
   \<and> minter (rewardCoin world_one_pending) = this world_one_pending
   \<and> (\<exists>w'. transact (mock_env 3 0 2000) (FinalizeWithdraw 5 5 []) accepting world_one_pending
            = (None, w')
        \<and> getStake w' 1 = (0, 0, False, False)
        \<and> paid w' = [(1, 5)]
        \<and> minted (rewardCoin w') = [(1, 0)]
        \<and> withdrawRequests w' 5 = 0
        \<and> transact (mock_env 3 0 2000) (FinalizeWithdraw 5 5 []) accepting w'
            = (Some InvalidWithdrawRequest, w'))
   \<and> \<not> accepts refusing
   \<and> transact (mock_env 3 0 2000) (FinalizeWithdraw 5 5 []) refusing world_one_pending
       = (Some TransferFailed, world_one_pending)
   \<and> minter (rewardCoin world_minter_moved) \<noteq> this world_minter_moved
   \<and> transact (mock_env 3 0 2000) (FinalizeWithdraw 5 5 []) accepting world_minter_moved
       = (Some Unauthorized, world_minter_moved)"
proof -
  have h1: "withdrawRequests world_one_pending 5 = 1" by (simp add: example_simps)
  have h2: "(1 :: address) \<noteq> 0" by simp
  have h3: "active (stakes world_one_pending 1)" by (simp add: example_simps)
  have h4: "withdrawRequested (stakes world_one_pending 1)" by (simp add: example_simps)
  have h5: "checkSignatures (mock_env 3 0 2000) [5] (abi_encode 5) []" by (simp add: example_simps)
  have quiet: "accepts accepting \<and> reenters accepting = []
      \<and> minter (rewardCoin world_one_pending) = this world_one_pending"
    by (simp add: example_simps)
  have refuses: "\<not> accepts refusing" by (simp add: example_simps)
  have m1: "withdrawRequests world_minter_moved 5 = 1"
    and m3: "active (stakes world_minter_moved 1)"
    and m4: "withdrawRequested (stakes world_minter_moved 1)"
    and moved: "accepts accepting \<and> reenters accepting = []
      \<and> minter (rewardCoin world_minter_moved) \<noteq> this world_minter_moved"
    by (simp_all add: world_minter_moved_eq example_simps)
  from finalize_settles [OF h1 h2 h3 h4 h5, of accepting] quiet
  obtain w' r where w':
    "transact (mock_env 3 0 2000) (FinalizeWithdraw 5 5 []) accepting world_one_pending = (None, w')"
    "getStake w' 1 = (0, 0, False, False)"
    "paid w' = paid world_one_pending @ [(1, 5)]"
    "unat r = unat (5 :: uint64) * (1000 * 10 ^ 6) div 10 ^ 18"
    "minted (rewardCoin w') = minted (rewardCoin world_one_pending) @ [(1, asEuint64 (mock_env 3 0 2000) r)]"
    "withdrawRequests w' 5 = 0"
    "\<forall>e' v' p' cb'. transact e' (FinalizeWithdraw 5 v' p') cb' w' = (Some InvalidWithdrawRequest, w')"
    by blast
  from w'(4) have "unat r = 0" by simp
  then have "r = 0" by (simp add: unat_eq_0)
  with w'(5) have m: "minted (rewardCoin w') = [(1, 0)]" by (simp add: example_simps)
  from w'(3) have p: "paid w' = [(1, 5)]" by (simp add: example_simps)
  from finalize_settles [OF h1 h2 h3 h4 h5, of refusing] refuses
  have t: "transact (mock_env 3 0 2000) (FinalizeWithdraw 5 5 []) refusing world_one_pending
       = (Some TransferFailed, world_one_pending)" by blast
  from finalize_settles [OF m1 h2 m3 m4 h5, of accepting] moved
  have u: "transact (mock_env 3 0 2000) (FinalizeWithdraw 5 5 []) accepting world_minter_moved
       = (Some Unauthorized, world_minter_moved)" by blast
  from w'(1,2,6,7) m p t u h1 h2 h3 h4 h5 quiet refuses moved show ?thesis by blast
qed

text \<open>
  Claim C10. \<open>finalizeWithdraw\<close> never reads the sender: two calls that differ only
  in who sends them have the same outcome and leave the same state. When the call
  commits, its payment and its mint both go to the staker the index records for the
  handle; they are the only payment and the only mint of the call unless the staker
  calls back while it is being paid.
\<close>

theorem finalize_caller_independent:
  "transact (e\<lparr>msg_sender := a\<rparr>) (FinalizeWithdraw h v p) cb w
     = transact (e\<lparr>msg_sender := b\<rparr>) (FinalizeWithdraw h v p) cb w
   \<and> (fst (transact e (FinalizeWithdraw h v p) cb w) = None \<longrightarrow>
        (\<exists>r later earlier. rewardAmount v = Some r
          \<and> paid (snd (transact e (FinalizeWithdraw h v p) cb w))
              = paid w @ (withdrawRequests w h, v) # later
          \<and> minted (rewardCoin (snd (transact e (FinalizeWithdraw h v p) cb w)))
              = earlier @ [(withdrawRequests w h, asEuint64 e (ucast r))]
          \<and> (reenters cb = [] \<longrightarrow> later = [] \<and> earlier = minted (rewardCoin w))))"
proof (intro conjI impI)
  show "transact (e\<lparr>msg_sender := a\<rparr>) (FinalizeWithdraw h v p) cb w
     = transact (e\<lparr>msg_sender := b\<rparr>) (FinalizeWithdraw h v p) cb w"
    by (simp add: transact.simps finalizeWithdraw_sender)
next
  let ?s = "withdrawRequests w h"
  let ?w3 = "reenter (reenters cb) (handed_over w h v)"
  assume "fst (transact e (FinalizeWithdraw h v p) cb w) = None"
  then have "fst (finalizeWithdraw e h v p cb w) = None" by (simp add: fst_transact)
  then obtain w' where ok: "finalizeWithdraw e h v p cb w = (None, w')"
    by (cases "finalizeWithdraw e h v p cb w") simp
  then have t: "snd (transact e (FinalizeWithdraw h v p) cb w) = w'"
    by (simp add: transact.simps)
  from finalizeWithdraw_commit [OF ok] obtain r where r: "rewardAmount v = Some r"
    and w': "w' = ?w3\<lparr>rewardCoin := (rewardCoin ?w3)
               \<lparr>minted := minted (rewardCoin ?w3) @ [(?s, asEuint64 e (ucast r))]\<rparr>\<rparr>"
    by blast
  obtain later where later: "paid ?w3 = paid (handed_over w h v) @ later"
    using reenter_paid [of "reenters cb" "handed_over w h v"] by blast
  have quiet: "reenters cb = [] \<longrightarrow> paid ?w3 = paid (handed_over w h v)
      \<and> minted (rewardCoin ?w3) = minted (rewardCoin w)"
    by (simp add: handed_over_def)
  have 1: "paid w' = paid w @ (?s, v) # later"
    by (simp add: w' later) (simp add: handed_over_def)
  have 2: "minted (rewardCoin w') = minted (rewardCoin ?w3) @ [(?s, asEuint64 e (ucast r))]"
    by (simp add: w')
  have 3: "reenters cb = [] \<longrightarrow> later = [] \<and> minted (rewardCoin ?w3) = minted (rewardCoin w)"
    using quiet later by auto
  show "\<exists>r later earlier. rewardAmount v = Some r
          \<and> paid (snd (transact e (FinalizeWithdraw h v p) cb w))
              = paid w @ (withdrawRequests w h, v) # later
          \<and> minted (rewardCoin (snd (transact e (FinalizeWithdraw h v p) cb w)))
              = earlier @ [(withdrawRequests w h, asEuint64 e (ucast r))]
          \<and> (reenters cb = [] \<longrightarrow> later = [] \<and> earlier = minted (rewardCoin w))"
    unfolding t using r 1 2 3 by blast
qed

text \<open>In the run: sent by the staker or by account 4, the payment goes to account 1.\<close>

theorem finalize_caller_independent_witness:
  "fst (transact (mock_env 3 0 2000) (FinalizeWithdraw 5 5 []) accepting world_one_pending) = None
   \<and> reenters accepting = []
   \<and> transact ((mock_env 3 0 2000)\<lparr>msg_sender := 1\<rparr>) (FinalizeWithdraw 5 5 []) accepting
        world_one_pending
     = transact ((mock_env 3 0 2000)\<lparr>msg_sender := 4\<rparr>) (FinalizeWithdraw 5 5 []) accepting
        world_one_pending
   \<and> paid (snd (transact (mock_env 3 0 2000) (FinalizeWithdraw 5 5 []) accepting
        world_one_pending)) = [(1, 5)]"
proof -
  have "fst (finalizeWithdraw (mock_env 3 0 2000) 5 5 [] accepting world_one_pending) = None"
    by (simp add: finalizeWithdraw.simps mint_def rewardAmount_5 max_uint64_def example_simps)
  then have h: "fst (transact (mock_env 3 0 2000) (FinalizeWithdraw 5 5 []) accepting
      world_one_pending) = None"
    by (simp add: fst_transact)
  have q: "reenters accepting = []" by (simp add: example_simps)
  have p: "paid world_one_pending @ [(withdrawRequests world_one_pending 5, 5 :: uint64)] = [(1, 5)]"
    by (simp add: example_simps)
  from finalize_caller_independent [where e = "mock_env 3 0 2000" and a = 1 and b = 4 and h = 5
      and v = 5 and p = "[]" and w = world_one_pending and cb = accepting] h q
  obtain later where "later = []" "paid (snd (transact (mock_env 3 0 2000) (FinalizeWithdraw 5 5 [])
        accepting world_one_pending))
      = paid world_one_pending @ (withdrawRequests world_one_pending 5, 5) # later"
    and same: "transact ((mock_env 3 0 2000)\<lparr>msg_sender := 1\<rparr>) (FinalizeWithdraw 5 5 []) accepting
        world_one_pending
     = transact ((mock_env 3 0 2000)\<lparr>msg_sender := 4\<rparr>) (FinalizeWithdraw 5 5 []) accepting
        world_one_pending"
    by blast
  then have "paid (snd (transact (mock_env 3 0 2000) (FinalizeWithdraw 5 5 [])
        accepting world_one_pending)) = [(1, 5)]"
    using p by simp
  with h q same show ?thesis by blast
qed

end
